theory Spec2Isabelle
  imports Main "HOL-Library.Word"
begin

unbundle bit_operations_syntax

section \<open>JavaScript values\<close>

text \<open>
  The class works on the payload that its caller passes. The values of the model are
  \<^verbatim>\<open>undefined\<close> and the values that \<^verbatim>\<open>JSON.parse\<close> returns: \<^verbatim>\<open>null\<close>, booleans, numbers,
  strings, arrays and objects.

  A string is modelled by the UTF-8 bytes of its (well-formed) text: \<^typ>\<open>string\<close> is a
  list of 8-bit characters, so \<^verbatim>\<open>Buffer.from(s)\<close> and the UTF-8 encoding done by
  \<^verbatim>\<open>hash.update(s)\<close> are the identity on this representation.

  A number is a double. What the class observes of a number is its truthiness and its
  decimal text, so a finite non-zero double is represented by the triple of ECMAScript's
  \<^verbatim>\<open>Number::toString\<close>: its sign, the integer \<open>s\<close> of its shortest decimal digits and the
  decimal exponent \<open>n\<close>. Its value is \<open>s * 10 ^ (n - k)\<close> for \<open>k\<close> the number of digits of
  \<open>s\<close>, and \<open>s\<close> does not end in the digit 0: 10.5 is \<open>Finite False 105 2\<close>. The first
  field of \<open>Infinity\<close>, \<open>Zero\<close> and \<open>Finite\<close> is the sign (\<open>True\<close> is negative). A triple
  with \<open>s = 0\<close> is read as zero.

  An array is the list of its elements. An object value is the list of its own
  properties in the order in which \<^verbatim>\<open>JSON.stringify\<close> and \<^verbatim>\<open>Object.assign\<close> enumerate
  them: all of them are enumerable, writable data properties with string keys, and the
  prototype of the object is \<^verbatim>\<open>Object.prototype\<close>. For keys that are not array indices
  the order is creation order; no key the class adds is an array index. A key occurs once
  in an object. An object that \<^verbatim>\<open>JSON.parse\<close> returns can have an own property with the
  key \<^verbatim>\<open>__proto__\<close>.
\<close>

datatype jsnum = NaN | Infinity bool | Zero bool | Finite bool nat int

datatype jsval = JUndefined | JNull | JBool bool | JNum jsnum | JStr string
  | JArr "jsval list" | JObj "(string \<times> jsval) list"

type_synonym jsobject = "(string \<times> jsval) list"

text \<open>\<^verbatim>\<open>!v\<close>: the values that convert to \<^verbatim>\<open>false\<close>.\<close>

fun falsy :: "jsval \<Rightarrow> bool" where
  "falsy JUndefined = True"
| "falsy JNull = True"
| "falsy (JBool b) = (\<not> b)"
| "falsy (JNum NaN) = True"
| "falsy (JNum (Zero neg)) = True"
| "falsy (JNum (Infinity neg)) = False"
| "falsy (JNum (Finite neg s n)) = (s = 0)"
| "falsy (JStr s) = (s = [])"
| "falsy (JArr xs) = False"
| "falsy (JObj props) = False"

fun is_object :: "jsval \<Rightarrow> bool" where
  "is_object (JArr xs) = True"
| "is_object (JObj props) = True"
| "is_object _ = False"

subsection \<open>Own properties\<close>

text \<open>
  Reading an own property from a list of properties (\<^verbatim>\<open>undefined\<close> when there is none),
  and writing one: an existing property keeps its position, a new one is appended.
\<close>

definition obj_get :: "jsobject \<Rightarrow> string \<Rightarrow> jsval" where
  "obj_get obj k = (case map_of obj k of None \<Rightarrow> JUndefined | Some v \<Rightarrow> v)"

fun obj_set :: "jsobject \<Rightarrow> string \<Rightarrow> jsval \<Rightarrow> jsobject" where
  "obj_set [] k v = [(k, v)]"
| "obj_set ((k', v') # rest) k v =
     (if k' = k then (k', v) # rest else (k', v') # obj_set rest k v)"

subsection \<open>Objects with a prototype\<close>

text \<open>
  The object that \<open>preparePayment\<close> creates and fills is an object whose prototype can
  change: \<open>own\<close> are its own properties, and \<open>proto\<close> is its prototype, \<open>None\<close> for
  \<^verbatim>\<open>Object.prototype\<close>, with which the literal \<^verbatim>\<open>{}\<close> starts, and \<open>Some v\<close> for the value
  \<open>v\<close>, which is \<^verbatim>\<open>null\<close>, an array or an object.
\<close>

record object =
  own :: jsobject
  proto :: "jsval option"

definition empty_object :: object where
  "empty_object = \<lparr>own = [], proto = None\<rparr>"

text \<open>
  \<^verbatim>\<open>obj.k\<close>, the internal method \<^verbatim>\<open>[[Get]]\<close>: the own property, else the property of the
  prototype. This is the reading of a name that \<^verbatim>\<open>Object.prototype\<close> and
  \<^verbatim>\<open>Array.prototype\<close> do not define and that is not the index or the length of an array;
  the class reads \<^verbatim>\<open>language\<close>, \<^verbatim>\<open>version\<close>, \<^verbatim>\<open>amount\<close>, \<^verbatim>\<open>currency\<close> and \<^verbatim>\<open>description\<close>.
\<close>

definition Get :: "object \<Rightarrow> string \<Rightarrow> jsval" where
  "Get obj k =
     (case map_of (own obj) k of
        Some v \<Rightarrow> v
      | None \<Rightarrow> (case proto obj of Some (JObj props) \<Rightarrow> obj_get props k | _ \<Rightarrow> JUndefined))"

text \<open>
  Whether the lookup of \<^verbatim>\<open>__proto__\<close> along the prototype chain ends at the accessor
  property of \<^verbatim>\<open>Object.prototype\<close>: not when the chain ends in \<^verbatim>\<open>null\<close> before, and not when
  an object on the chain has an own data property with this key.
\<close>

fun inherits_proto_accessor :: "jsval option \<Rightarrow> bool" where
  "inherits_proto_accessor None = True"
| "inherits_proto_accessor (Some (JObj props)) = (''__proto__'' \<notin> fst ` set props)"
| "inherits_proto_accessor (Some (JArr xs)) = True"
| "inherits_proto_accessor (Some _) = False"

text \<open>
  \<^verbatim>\<open>obj.k = v\<close>, the internal method \<^verbatim>\<open>[[Set]]\<close>. An own property is overwritten. Otherwise
  the key is looked up along the prototype chain: for \<^verbatim>\<open>__proto__\<close> the lookup finds the
  accessor of \<^verbatim>\<open>Object.prototype\<close>, whose setter makes \<open>v\<close> the prototype of the object
  when \<open>v\<close> is an object or \<^verbatim>\<open>null\<close> and does nothing for any other \<open>v\<close>; for a key that
  is not found, or found as a data property, a new own property is created.
\<close>

definition Set :: "object \<Rightarrow> string \<Rightarrow> jsval \<Rightarrow> object" where
  "Set obj k v =
     (if k \<in> fst ` set (own obj) then obj\<lparr>own := obj_set (own obj) k v\<rparr>
      else if k = ''__proto__'' \<and> inherits_proto_accessor (proto obj)
      then (if is_object v \<or> v = JNull then obj\<lparr>proto := Some v\<rparr> else obj)
      else obj\<lparr>own := obj_set (own obj) k v\<rparr>)"

text \<open>\<^verbatim>\<open>Object.assign(target, source)\<close>: for each own key of the source, in order, the
  value read from the source is written to the target with \<^verbatim>\<open>[[Set]]\<close>. The prototype of
  the source plays no part.\<close>

definition Object_assign :: "object \<Rightarrow> jsobject \<Rightarrow> object" where
  "Object_assign target source =
     fold (\<lambda>k t. Set t k (obj_get source k)) (map fst source) target"

section \<open>JSON.stringify\<close>

definition digit_char :: "nat \<Rightarrow> char" where
  "digit_char d = ''0123456789'' ! d"

fun digits :: "nat \<Rightarrow> string" where
  "digits n = (if n < 10 then [digit_char n] else digits (n div 10) @ [digit_char (n mod 10)])"

declare digits.simps [simp del]

text \<open>\<^verbatim>\<open>Number::toString\<close> in radix 10, for the magnitude with digits \<open>ds\<close> and exponent \<open>n\<close>.\<close>

definition magnitude_to_string :: "string \<Rightarrow> int \<Rightarrow> string" where
  "magnitude_to_string ds n =
     (let k = int (length ds) in
      if -5 \<le> n \<and> n \<le> 21 then
        (if n \<ge> k then ds @ replicate (nat (n - k)) (CHR ''0'')
         else if n > 0 then take (nat n) ds @ ''.'' @ drop (nat n) ds
         else ''0.'' @ replicate (nat (- n)) (CHR ''0'') @ ds)
      else
        (let c = n - 1;
             e = (if c < 0 then ''-'' else ''+'') @ digits (nat \<bar>c\<bar>)
         in if k = 1 then ds @ ''e'' @ e
            else take 1 ds @ ''.'' @ drop 1 ds @ ''e'' @ e))"

fun Number_toString :: "jsnum \<Rightarrow> string" where
  "Number_toString NaN = ''NaN''"
| "Number_toString (Zero neg) = ''0''"
| "Number_toString (Infinity neg) = (if neg then ''-Infinity'' else ''Infinity'')"
| "Number_toString (Finite neg s n) =
     (if s = 0 then ''0''
      else (if neg then ''-'' else '''') @ magnitude_to_string (digits s) n)"

fun is_finite :: "jsnum \<Rightarrow> bool" where
  "is_finite NaN = False"
| "is_finite (Infinity neg) = False"
| "is_finite (Zero neg) = True"
| "is_finite (Finite neg s n) = True"

definition hex_char :: "nat \<Rightarrow> char" where
  "hex_char d = ''0123456789abcdef'' ! d"

text \<open>\<^verbatim>\<open>QuoteJSONString\<close>: the two-character escapes, \<^verbatim>\<open>\u00xx\<close> for the other control
  characters, every other byte as it is.\<close>

definition json_escape :: "char \<Rightarrow> string" where
  "json_escape c =
     (let n = (of_char c :: nat) in
      if n = 8 then [CHR 0x5C, CHR ''b'']
      else if n = 9 then [CHR 0x5C, CHR ''t'']
      else if n = 10 then [CHR 0x5C, CHR ''n'']
      else if n = 12 then [CHR 0x5C, CHR ''f'']
      else if n = 13 then [CHR 0x5C, CHR ''r'']
      else if n = 34 then [CHR 0x5C, CHR 0x22]
      else if n = 92 then [CHR 0x5C, CHR 0x5C]
      else if n < 32 then [CHR 0x5C, CHR ''u'', CHR ''0'', CHR ''0'', hex_char (n div 16), hex_char (n mod 16)]
      else [c])"

definition QuoteJSONString :: "string \<Rightarrow> string" where
  "QuoteJSONString s = [CHR 0x22] @ concat (map json_escape s) @ [CHR 0x22]"


definition json_member :: "string \<times> string \<Rightarrow> string" where
  "json_member m = QuoteJSONString (fst m) @ '':'' @ snd m"

fun join :: "string \<Rightarrow> string list \<Rightarrow> string" where
  "join sep [] = []"
| "join sep [x] = x"
| "join sep (x # y # rest) = x @ sep @ join sep (y # rest)"

text \<open>
  \<^verbatim>\<open>SerializeJSONProperty\<close>, without indentation: \<open>None\<close> is \<^verbatim>\<open>undefined\<close>, for which the
  property is left out of the enclosing object. \<^verbatim>\<open>SerializeJSONObject\<close> visits the own
  properties in order, skips one whose value serialises to \<^verbatim>\<open>undefined\<close> and turns the
  others into the members \<^verbatim>\<open>"key":value\<close>, separated by commas; \<open>json_entries\<close> is the list
  of the members' keys and value texts. \<^verbatim>\<open>SerializeJSONArray\<close> writes \<^verbatim>\<open>null\<close> for an element
  that serialises to \<^verbatim>\<open>undefined\<close>; \<open>json_elements\<close> is the list of the elements' texts.
\<close>

fun SerializeJSONProperty :: "jsval \<Rightarrow> string option"
  and json_entries :: "jsobject \<Rightarrow> (string \<times> string) list"
  and json_elements :: "jsval list \<Rightarrow> string list" where
  "SerializeJSONProperty JUndefined = None"
| "SerializeJSONProperty JNull = Some ''null''"
| "SerializeJSONProperty (JBool b) = Some (if b then ''true'' else ''false'')"
| "SerializeJSONProperty (JNum x) = Some (if is_finite x then Number_toString x else ''null'')"
| "SerializeJSONProperty (JStr s) = Some (QuoteJSONString s)"
| "SerializeJSONProperty (JArr xs) = Some (''['' @ join '','' (json_elements xs) @ '']'')"
| "SerializeJSONProperty (JObj props) =
     Some (''{'' @ join '','' (map json_member (json_entries props)) @ ''}'')"
| "json_entries [] = []"
| "json_entries ((k, v) # rest) =
     (case SerializeJSONProperty v of
        None \<Rightarrow> json_entries rest
      | Some strP \<Rightarrow> (k, strP) # json_entries rest)"
| "json_elements [] = []"
| "json_elements (v # rest) =
     (case SerializeJSONProperty v of None \<Rightarrow> ''null'' | Some strP \<Rightarrow> strP)
       # json_elements rest"

text \<open>\<^verbatim>\<open>JSON.stringify(obj)\<close> for an object of the class: the text of its own properties.\<close>

definition JSON_stringify :: "object \<Rightarrow> string" where
  "JSON_stringify obj = ''{'' @ join '','' (map json_member (json_entries (own obj))) @ ''}''"

section \<open>Base64\<close>

definition b64_alphabet :: string where
  "b64_alphabet = ''ABCDEFGHIJKLMNOPQRSTUVWXYZabcdefghijklmnopqrstuvwxyz0123456789+/''"

definition b64_char :: "nat \<Rightarrow> char" where
  "b64_char n = b64_alphabet ! n"

fun base64 :: "string \<Rightarrow> string" where
  "base64 [] = []"
| "base64 [a] =
     (let x = (of_char a :: nat)
      in [b64_char (x div 4), b64_char (x mod 4 * 16), CHR ''='', CHR ''=''])"
| "base64 [a, b] =
     (let x = (of_char a :: nat); y = (of_char b :: nat)
      in [b64_char (x div 4), b64_char (x mod 4 * 16 + y div 16),
          b64_char (y mod 16 * 4), CHR ''=''])"
| "base64 (a # b # c # rest) =
     (let x = (of_char a :: nat); y = (of_char b :: nat); z = (of_char c :: nat)
      in [b64_char (x div 4), b64_char (x mod 4 * 16 + y div 16),
          b64_char (y mod 16 * 4 + z div 64), b64_char (z mod 64)] @ base64 rest)"



section \<open>SHA-1\<close>

text \<open>
  \<^verbatim>\<open>createHash('sha1')\<close>, \<^verbatim>\<open>update\<close> and \<^verbatim>\<open>digest\<close>: the SHA-1 of FIPS 180-4 over the bytes
  of the text, on 32-bit words whose addition wraps around.
\<close>

type_synonym w32 = "32 word"

definition rotl :: "nat \<Rightarrow> w32 \<Rightarrow> w32" where
  "rotl n x = push_bit n x OR drop_bit (32 - n) x"

definition sha1_f :: "nat \<Rightarrow> w32 \<Rightarrow> w32 \<Rightarrow> w32 \<Rightarrow> w32" where
  "sha1_f t b c d =
     (if t < 20 then (b AND c) OR (NOT b AND d)
      else if t < 40 then b XOR c XOR d
      else if t < 60 then (b AND c) OR (b AND d) OR (c AND d)
      else b XOR c XOR d)"

definition sha1_k :: "nat \<Rightarrow> w32" where
  "sha1_k t =
     (if t < 20 then 0x5A827999
      else if t < 40 then 0x6ED9EBA1
      else if t < 60 then 0x8F1BBCDC
      else 0xCA62C1D6)"

text \<open>
  The rounds of one block. \<open>ws\<close> holds the sixteen most recent words of the message
  schedule: round \<open>t\<close> consumes the oldest, \<open>W\<^sub>t\<close>, and appends \<open>W\<^sub>t\<^sub>+\<^sub>1\<^sub>6\<close>.
\<close>

type_synonym sha1_state = "w32 \<times> w32 \<times> w32 \<times> w32 \<times> w32"

fun sha1_rounds :: "nat list \<Rightarrow> w32 list \<Rightarrow> sha1_state \<Rightarrow> sha1_state" where
  "sha1_rounds [] ws st = st"
| "sha1_rounds (t # ts) ws (a, b, c, d, e) =
     sha1_rounds ts
       (tl ws @ [rotl 1 (ws ! 13 XOR ws ! 8 XOR ws ! 2 XOR ws ! 0)])
       (rotl 5 a + sha1_f t b c d + e + sha1_k t + ws ! 0, a, rotl 30 b, c, d)"

definition sha1_block :: "sha1_state \<Rightarrow> w32 list \<Rightarrow> sha1_state" where
  "sha1_block h ws =
     (case h of (h0, h1, h2, h3, h4) \<Rightarrow>
        (case sha1_rounds [0..<80] ws h of (a, b, c, d, e) \<Rightarrow>
           (h0 + a, h1 + b, h2 + c, h3 + d, h4 + e)))"

definition be32 :: "char \<Rightarrow> char \<Rightarrow> char \<Rightarrow> char \<Rightarrow> w32" where
  "be32 a b c d = ((of_char a * 256 + of_char b) * 256 + of_char c) * 256 + of_char d"

fun be_words :: "string \<Rightarrow> w32 list" where
  "be_words (a # b # c # d # rest) = be32 a b c d # be_words rest"
| "be_words _ = []"

definition word_bytes :: "w32 \<Rightarrow> string" where
  "word_bytes h =
     [char_of (uint (drop_bit 24 h)), char_of (uint (drop_bit 16 h)),
      char_of (uint (drop_bit 8 h)), char_of (uint h)]"

text \<open>The message length in bits, as a 64-bit big-endian integer.\<close>

definition length_bytes :: "int \<Rightarrow> string" where
  "length_bytes n = map (\<lambda>i. char_of (drop_bit (8 * i) n)) [7, 6, 5, 4, 3, 2, 1, 0]"

definition sha1_pad :: "string \<Rightarrow> string" where
  "sha1_pad m =
     m @ [CHR 0x80] @ replicate ((119 - length m mod 64) mod 64) (CHR 0x00)
       @ length_bytes (8 * int (length m))"

fun sha1_blocks :: "sha1_state \<Rightarrow> w32 list \<Rightarrow> sha1_state" where
  "sha1_blocks h ws =
     (if length ws < 16 then h else sha1_blocks (sha1_block h (take 16 ws)) (drop 16 ws))"

declare sha1_blocks.simps [simp del]

definition sha1 :: "string \<Rightarrow> string" where
  "sha1 m =
     (case sha1_blocks (0x67452301, 0xEFCDAB89, 0x98BADCFE, 0x10325476, 0xC3D2E1F0)
             (be_words (sha1_pad m)) of
        (h0, h1, h2, h3, h4) \<Rightarrow> concat (map word_bytes [h0, h1, h2, h3, h4]))"

section \<open>The class LiqPay\<close>

record LiqPay =
  baseUrl :: string
  imageSrc :: string
  apiVersion :: string
  privateKey :: string
  publicKey :: string
  enableSandbox :: bool

record ISignature =
  data :: string
  signature :: string

datatype error = TypeError string

text \<open>The constructor; \<open>None\<close> for the third argument is the call that leaves it out.\<close>

definition new_LiqPay :: "string \<Rightarrow> string \<Rightarrow> bool option \<Rightarrow> LiqPay" where
  "new_LiqPay privateKey' publicKey' enableSandbox' =
     \<lparr>baseUrl = ''https://www.liqpay.ua/api'',
      imageSrc = ''//static.liqpay.ua/buttons/p1ru.radius.png'',
      apiVersion = ''3'',
      privateKey = privateKey',
      publicKey = publicKey',
      enableSandbox = (case enableSandbox' of None \<Rightarrow> False | Some flag \<Rightarrow> flag)\<rparr>"

text \<open>
  A method that can assign to \<^verbatim>\<open>this\<close> or throw returns its outcome together with the
  object after the call; a thrown error is \<open>Inl\<close>.
\<close>

definition setApiVersion :: "string \<Rightarrow> LiqPay \<Rightarrow> (error + unit) \<times> LiqPay" where
  "setApiVersion apiVersion' this =
     (if apiVersion' = [] then (Inl (TypeError ''API version not specified!''), this)
      else (Inr (), this\<lparr>apiVersion := apiVersion'\<rparr>))"

definition verifyPaymentData :: "LiqPay \<Rightarrow> object \<Rightarrow> error + unit" where
  "verifyPaymentData this payment =
     (if falsy (Get payment ''version'') then Inl (TypeError ''Version must be specified!'')
      else if falsy (Get payment ''amount'') then Inl (TypeError ''Amount must be specified!'')
      else if falsy (Get payment ''currency'') then Inl (TypeError ''Currency must be specified!'')
      else if falsy (Get payment ''description'') then Inl (TypeError ''Description must be specified!'')
      else Inr ())"

text \<open>
  \<^verbatim>\<open>Language.UA\<close> comes from a module of type declarations that is not among the
  sources; the methods that reach it take its value as the parameter \<open>Language_UA\<close>.
\<close>

definition preparePayment :: "jsval \<Rightarrow> LiqPay \<Rightarrow> jsobject \<Rightarrow> object" where
  "preparePayment Language_UA this payload =
     (let payment = Object_assign empty_object payload;
          payment = (if falsy (Get payment ''language'')
                     then Set payment ''language'' Language_UA else payment);
          payment = (if enableSandbox this
                     then Set payment ''sandbox'' (JStr ''1'') else payment);
          payment = Set payment ''version'' (JStr (apiVersion this));
          payment = Set payment ''public_key'' (JStr (publicKey this))
      in payment)"

definition generateData :: "LiqPay \<Rightarrow> object \<Rightarrow> string" where
  "generateData this paymentData = base64 (JSON_stringify paymentData)"

definition generateSignature :: "LiqPay \<Rightarrow> string \<Rightarrow> string" where
  "generateSignature this data' = base64 (sha1 (privateKey this @ data' @ privateKey this))"

definition getObjData :: "jsval \<Rightarrow> jsobject \<Rightarrow> LiqPay \<Rightarrow> (error + ISignature) \<times> LiqPay" where
  "getObjData Language_UA payload this =
     (let payment = preparePayment Language_UA this payload
      in case verifyPaymentData this payment of
           Inl err \<Rightarrow> (Inl err, this)
         | Inr _ \<Rightarrow>
             (let data' = generateData this payment;
                  signature' = generateSignature this data'
              in (Inr \<lparr>data = data', signature = signature'\<rparr>, this)))"

text \<open>The template literal of \<open>getHtmlForm\<close>, as a function of its five substitutions.\<close>

definition form_html :: "string \<Rightarrow> string \<Rightarrow> string \<Rightarrow> string \<Rightarrow> string \<Rightarrow> string" where
  \<open>form_html baseUrl' apiVersion' data' signature' imageSrc' =
     [CHR 0x0A] @
     ''            <form method="POST" action="'' @ baseUrl' @ ''/'' @ apiVersion'
       @ ''/checkout" accept-charset="utf-8">'' @ [CHR 0x0A] @
     ''                <input type="hidden" name="data" value="'' @ data' @ ''" />'' @ [CHR 0x0A] @
     ''                <input type="hidden" name="signature" value="'' @ signature' @ ''" />''
       @ [CHR 0x0A] @
     ''                <input type="image" src="'' @ imageSrc' @ ''" />'' @ [CHR 0x0A] @
     ''            </form>'' @ [CHR 0x0A] @
     ''        ''\<close>

definition getHtmlForm :: "jsval \<Rightarrow> jsobject \<Rightarrow> LiqPay \<Rightarrow> (error + string) \<times> LiqPay" where
  "getHtmlForm Language_UA payload this =
     (case getObjData Language_UA payload this of
        (Inl err, this') \<Rightarrow> (Inl err, this')
      | (Inr res, this') \<Rightarrow>
          (Inr (form_html (baseUrl this') (apiVersion this') (data res) (signature res)
                  (imageSrc this')), this'))"

text \<open>A client's use of an object: the calls it makes, and the object after them.\<close>

datatype call = SetApiVersion string | GetHtmlForm jsobject | GetObjData jsobject

fun perform :: "jsval \<Rightarrow> call \<Rightarrow> LiqPay \<Rightarrow> LiqPay" where
  "perform Language_UA (SetApiVersion v) this = snd (setApiVersion v this)"
| "perform Language_UA (GetHtmlForm payload) this = snd (getHtmlForm Language_UA payload this)"
| "perform Language_UA (GetObjData payload) this = snd (getObjData Language_UA payload this)"

definition run :: "jsval \<Rightarrow> call list \<Rightarrow> LiqPay \<Rightarrow> LiqPay" where
  "run Language_UA calls this = fold (perform Language_UA) calls this"

text \<open>The number of positions of a text at which a pattern occurs; an \<^verbatim>\<open>action\<close>
  attribute of a tag is an occurrence of \<^verbatim>\<open> action="\<close>.\<close>

fun occurrences :: "string \<Rightarrow> string \<Rightarrow> nat" where
  "occurrences pat [] = 0"
| "occurrences pat (c # cs) =
     (if take (length pat) (c # cs) = pat then 1 else 0) + occurrences pat cs"

definition action_attribute :: string where
  \<open>action_attribute = '' action="''\<close>

text \<open>A hidden field of the form is an \<^verbatim>\<open>input\<close> tag of type \<^verbatim>\<open>hidden\<close>; \<open>hidden_field name\<close> is
  the text of the tag for \<open>name\<close> up to the double quote that opens its value.\<close>

definition hidden_input :: string where
  \<open>hidden_input = ''<input type="hidden" ''\<close>

definition hidden_field :: "string \<Rightarrow> string" where
  \<open>hidden_field name = hidden_input @ ''name="'' @ name @ ''" value="''\<close>

text \<open>The copy of the payload with which \<open>preparePayment\<close> starts.\<close>

abbreviation copy :: "jsobject \<Rightarrow> object" where
  "copy payload \<equiv> Object_assign empty_object payload"

section \<open>Properties of objects\<close>


lemma map_of_obj_set:
  "map_of (obj_set obj k v) k' = (if k' = k then Some v else map_of obj k')"
  by (induction obj) auto

lemma keys_obj_set:
  "map fst (obj_set obj k v) = (if k \<in> fst ` set obj then map fst obj else map fst obj @ [k])"
  by (induction obj) force+

lemma obj_get_absent: "k \<notin> fst ` set obj \<Longrightarrow> obj_get obj k = JUndefined"
  by (simp add: obj_get_def map_of_eq_None_iff [THEN iffD2])

lemma obj_get_present: "k \<in> fst ` set obj \<Longrightarrow> map_of obj k = Some (obj_get obj k)"
  by (cases "map_of obj k") (auto simp: obj_get_def map_of_eq_None_iff)



text \<open>Writing a key other than \<^verbatim>\<open>__proto__\<close> writes an own property.\<close>

lemma Set_ordinary: "k \<noteq> ''__proto__'' \<Longrightarrow> Set obj k v = obj\<lparr>own := obj_set (own obj) k v\<rparr>"
  by (simp add: Set_def)

lemma map_of_own_Set:
  "k' \<noteq> ''__proto__'' \<Longrightarrow>
   map_of (own (Set obj k v)) k' = (if k' = k then Some v else map_of (own obj) k')"
  by (auto simp: Set_def map_of_obj_set)


lemma Get_Set_ordinary:
  "k \<noteq> ''__proto__'' \<Longrightarrow> Get (Set obj k v) k' = (if k' = k then v else Get obj k')"
  by (simp add: Set_ordinary Get_def map_of_obj_set split: option.split)

subsection \<open>The copy of the payload\<close>

lemma map_of_own_fold_Set:
  "k' \<noteq> ''__proto__'' \<Longrightarrow>
   map_of (own (fold (\<lambda>k t. Set t k (f k)) ks target)) k'
     = (if k' \<in> set ks then Some (f k') else map_of (own target) k')"
  by (induction ks arbitrary: target) (auto simp: map_of_own_Set)

lemma map_of_own_copy: "k \<noteq> ''__proto__'' \<Longrightarrow> map_of (own (copy payload)) k = map_of payload k"
proof (cases "k \<in> fst ` set payload")
  case True
  moreover assume "k \<noteq> ''__proto__''"
  ultimately show ?thesis
    by (simp add: Object_assign_def map_of_own_fold_Set obj_get_present)
next
  case False
  moreover assume "k \<noteq> ''__proto__''"
  ultimately show ?thesis
    by (simp add: Object_assign_def map_of_own_fold_Set empty_object_def
          map_of_eq_None_iff [THEN iffD2])
qed


text \<open>
  The prototype of the copy: the value of the payload's property \<^verbatim>\<open>__proto__\<close> when this
  is an object or \<^verbatim>\<open>null\<close>, else \<^verbatim>\<open>Object.prototype\<close>.
\<close>

lemma proto_Set_other: "k \<noteq> ''__proto__'' \<Longrightarrow> proto (Set obj k v) = proto obj"
  by (simp add: Set_ordinary)

lemma proto_Set_stable:
  "proto obj = (if is_object v \<or> v = JNull then Some v else None)
   \<Longrightarrow> proto (Set obj ''__proto__'' v) = proto obj"
  by (simp add: Set_def)

lemma proto_fold_Set_stable:
  assumes "proto target = (if is_object (f ''__proto__'') \<or> f ''__proto__'' = JNull
                           then Some (f ''__proto__'') else None)"
  shows "proto (fold (\<lambda>k t. Set t k (f k)) ks target) = proto target"
  using assms
proof (induction ks arbitrary: target)
  case Nil
  show ?case by simp
next
  case (Cons k ks)
  have step: "proto (Set target k (f k)) = proto target"
  proof (cases "k = ''__proto__''")
    case True
    with Cons.prems show ?thesis by (simp only: proto_Set_stable)
  next
    case False
    then show ?thesis by (rule proto_Set_other)
  qed
  with Cons.prems have "proto (Set target k (f k))
      = (if is_object (f ''__proto__'') \<or> f ''__proto__'' = JNull
         then Some (f ''__proto__'') else None)" by simp
  from Cons.IH [OF this] step show ?case by simp
qed

lemma proto_fold_Set:
  assumes "proto target = None" and "''__proto__'' \<notin> fst ` set (own target)"
  shows "proto (fold (\<lambda>k t. Set t k (f k)) ks target)
    = (if ''__proto__'' \<in> set ks \<and> (is_object (f ''__proto__'') \<or> f ''__proto__'' = JNull)
       then Some (f ''__proto__'') else None)"
  using assms
proof (induction ks arbitrary: target)
  case Nil
  then show ?case by simp
next
  case (Cons k ks)
  show ?case
  proof (cases "k = ''__proto__''")
    case True
    from Cons.prems have first: "proto (Set target ''__proto__'' (f ''__proto__''))
      = (if is_object (f ''__proto__'') \<or> f ''__proto__'' = JNull
         then Some (f ''__proto__'') else None)"
      by (simp add: Set_def)
    from proto_fold_Set_stable [of "Set target ''__proto__'' (f ''__proto__'')" f ks, OF first]
    show ?thesis by (simp add: True first)
  next
    case False
    with Cons.prems have "proto (Set target k (f k)) = None"
      and "''__proto__'' \<notin> fst ` set (own (Set target k (f k)))"
      using keys_obj_set [of "own target" k "f k"]
      by (auto simp: Set_ordinary simp flip: set_map split: if_splits)
    from Cons.IH [OF this] False show ?thesis by simp
  qed
qed

lemma proto_copy:
  "proto (copy payload)
     = (if is_object (obj_get payload ''__proto__'') \<or> obj_get payload ''__proto__'' = JNull
        then Some (obj_get payload ''__proto__'') else None)"
proof -
  have absent: "''__proto__'' \<notin> fst ` set payload \<Longrightarrow> obj_get payload ''__proto__'' = JUndefined"
    by (rule obj_get_absent)
  show ?thesis
    unfolding Object_assign_def
    by (subst proto_fold_Set) (use absent in \<open>auto simp: empty_object_def\<close>)
qed

text \<open>
  What the copy reads under a name: the payload's own property, else the property of the
  object that the payload has under \<^verbatim>\<open>__proto__\<close>.
\<close>

lemma Get_copy:
  assumes "k \<noteq> ''__proto__''"
  shows "Get (copy payload) k =
     (case map_of payload k of
        Some v \<Rightarrow> v
      | None \<Rightarrow> (case obj_get payload ''__proto__'' of
                   JObj props \<Rightarrow> obj_get props k | _ \<Rightarrow> JUndefined))"
  by (simp add: Get_def map_of_own_copy [OF assms] proto_copy
        split: option.split jsval.split)

lemma Get_copy_own: "k \<noteq> ''__proto__'' \<Longrightarrow> k \<in> fst ` set payload \<Longrightarrow> Get (copy payload) k = obj_get payload k"
  by (simp add: Get_copy obj_get_present)

lemma Get_copy_plain:
  "k \<noteq> ''__proto__'' \<Longrightarrow> \<not> is_object (obj_get payload ''__proto__'')
   \<Longrightarrow> Get (copy payload) k = obj_get payload k"
  by (auto simp: Get_copy obj_get_def split: option.split jsval.split)





subsection \<open>The prepared payment\<close>

lemma own_preparePayment:
  "own (preparePayment ua this payload)
    = fold (\<lambda>p obj. obj_set obj (fst p) (snd p))
        ((if falsy (Get (copy payload) ''language'') then [(''language'', ua)] else [])
         @ (if enableSandbox this then [(''sandbox'', JStr ''1'')] else [])
         @ [(''version'', JStr (apiVersion this)), (''public_key'', JStr (publicKey this))])
        (own (copy payload))"
  by (simp add: preparePayment_def Let_def Set_ordinary)


lemma proto_preparePayment: "proto (preparePayment ua this payload) = proto (copy payload)"
  by (simp add: preparePayment_def Let_def Set_ordinary)


lemma map_of_own_preparePayment:
  "map_of (own (preparePayment ua this payload)) k =
     (if k = ''public_key'' then Some (JStr (publicKey this))
      else if k = ''version'' then Some (JStr (apiVersion this))
      else if k = ''sandbox'' \<and> enableSandbox this then Some (JStr ''1'')
      else if k = ''language'' \<and> falsy (Get (copy payload) ''language'') then Some ua
      else map_of (own (copy payload)) k)"
  by (simp add: own_preparePayment map_of_obj_set)

lemma Get_preparePayment:
  "Get (preparePayment ua this payload) k =
     (if k = ''public_key'' then JStr (publicKey this)
      else if k = ''version'' then JStr (apiVersion this)
      else if k = ''sandbox'' \<and> enableSandbox this then JStr ''1''
      else if k = ''language'' \<and> falsy (Get (copy payload) ''language'') then ua
      else Get (copy payload) k)"
  by (simp add: Get_def map_of_own_preparePayment proto_preparePayment split: option.split)


lemma json_entries_keys: "e \<in> set (json_entries obj) \<Longrightarrow> fst e \<in> fst ` set obj"
proof (induction obj)
  case Nil
  then show ?case by simp
next
  case (Cons p obj)
  obtain k v where p: "p = (k, v)" by (cases p)
  show ?case
  proof (cases "SerializeJSONProperty v")
    case None
    with Cons.prems p have "e \<in> set (json_entries obj)" by simp
    then have "fst e \<in> fst ` set obj" by (rule Cons.IH)
    then show ?thesis by simp
  next
    case (Some t)
    with Cons.prems p have "e = (k, t) \<or> e \<in> set (json_entries obj)" by simp
    then show ?thesis
    proof
      assume "e = (k, t)"
      with p show ?thesis by simp
    next
      assume "e \<in> set (json_entries obj)"
      then have "fst e \<in> fst ` set obj" by (rule Cons.IH)
      then show ?thesis by simp
    qed
  qed
qed

lemma distinct_json_entries:
  "distinct (map fst obj) \<Longrightarrow> distinct (map fst (json_entries obj))"
proof (induction obj)
  case Nil
  show ?case by simp
next
  case (Cons p obj)
  obtain k v where p: "p = (k, v)" by (cases p)
  from Cons.prems p have "k \<notin> fst ` set obj" by simp
  with json_entries_keys [of _ obj] have "k \<notin> fst ` set (json_entries obj)" by blast
  moreover from Cons have "distinct (map fst (json_entries obj))" by simp
  ultimately show ?case using p by (cases "SerializeJSONProperty v") simp_all
qed





section \<open>Base64 can be decoded\<close>


lemma length_b64_alphabet: "length b64_alphabet = 64"
  by (simp add: b64_alphabet_def)



lemma b64_char_in_alphabet: "n < 64 \<Longrightarrow> b64_char n \<in> set b64_alphabet"
  by (simp add: b64_char_def length_b64_alphabet)


lemma sextet_bounds:
  fixes x y z :: nat
  assumes "x < 256" "y < 256" "z < 256"
  shows "x div 4 < 64" "x mod 4 * 16 + y div 16 < 64"
    "y mod 16 * 4 + z div 64 < 64" "z mod 64 < 64"
proof -
  define m where "m = x mod 4"
  define r where "r = y div 16"
  define n where "n = y mod 16"
  define t where "t = z div 64"
  have "m < 4" "r < 16" "n < 16" "t < 4"
    using assms by (simp_all add: m_def r_def n_def t_def less_mult_imp_div_less)
  then have "m * 16 + r < 64" "n * 4 + t < 64" by linarith+
  then show "x mod 4 * 16 + y div 16 < 64" "y mod 16 * 4 + z div 64 < 64"
    by (simp_all add: m_def r_def n_def t_def)
  show "x div 4 < 64" using assms(1) by (simp add: less_mult_imp_div_less)
  show "z mod 64 < 64" by simp
qed





lemma base64_chars: "set (base64 xs) \<subseteq> set b64_alphabet \<union> {CHR ''=''}"
proof (induction xs rule: base64.induct)
  case 1
  show ?case by simp
next
  case (2 a)
  have "(of_char a :: nat) < 256" "(0::nat) < 256" by simp_all
  from sextet_bounds(1,2) [OF this(1) this(2) this(2)]
  show ?case by (simp add: Let_def b64_char_in_alphabet)
next
  case (3 a b)
  have "(of_char a :: nat) < 256" "(of_char b :: nat) < 256" "(0::nat) < 256" by simp_all
  from sextet_bounds(1,2,3) [OF this]
  show ?case by (simp add: Let_def b64_char_in_alphabet)
next
  case (4 a b c rest)
  have "(of_char a :: nat) < 256" "(of_char b :: nat) < 256" "(of_char c :: nat) < 256"
    by simp_all
  from sextet_bounds [OF this] "4.IH"
  show ?case by (simp add: Let_def b64_char_in_alphabet)
qed

lemma base64_no_quote: "CHR 0x22 \<notin> set (base64 xs)"
proof -
  have "CHR 0x22 \<notin> set b64_alphabet \<union> {CHR ''=''}" by (simp add: b64_alphabet_def)
  then show ?thesis using base64_chars [of xs] by blast
qed

lemma base64_no_space: "CHR '' '' \<notin> set (base64 xs)"
proof -
  have "CHR '' '' \<notin> set b64_alphabet \<union> {CHR ''=''}" by (simp add: b64_alphabet_def)
  then show ?thesis using base64_chars [of xs] by blast
qed

section \<open>The prepared payment as a list of fields\<close>

















section \<open>The text of a string\<close>








section \<open>The library functions on examples\<close>

text \<open>
  The definitions of SHA-1, Base64, \<^verbatim>\<open>Number::toString\<close> and \<^verbatim>\<open>JSON.stringify\<close>, evaluated
  on the test vectors of FIPS 180, on the data of a payment and on values of each kind.
  For evaluation the rotation is read with the left shift cut to 32 bits, which on 32-bit
  words changes nothing.
\<close>

lemma replicate_eval: "replicate n x = (if n = 0 then [] else x # replicate (n - 1) x)"
  by (cases n) simp_all

lemma rotl_mask: "rotl n x = (push_bit n x AND 0xFFFFFFFF) OR drop_bit (32 - n) x"
proof -
  have "(0xFFFFFFFF :: w32) = - 1" by simp
  then show ?thesis by (simp only: rotl_def and.right_neutral)
qed

lemmas sha1_eval = sha1_def sha1_pad_def length_bytes_def be32_def word_bytes_def sha1_block_def
  sha1_blocks.simps sha1_f_def sha1_k_def rotl_mask replicate_eval upt_rec char_of_def

lemma sha1_abc:
  "sha1 ''abc'' =
     [CHR 0xA9, CHR 0x99, CHR 0x3E, CHR 0x36, CHR 0x47, CHR 0x06, CHR 0x81, CHR 0x6A,
      CHR 0xBA, CHR 0x3E, CHR 0x25, CHR 0x71, CHR 0x78, CHR 0x50, CHR 0xC2, CHR 0x6C,
      CHR 0x9C, CHR 0xD0, CHR 0xD8, CHR 0x9D]"
  by (simp add: sha1_eval)

lemma sha1_two_blocks:
  "sha1 ''abcdbcdecdefdefgefghfghighijhijkijkljklmklmnlmnomnopnopq'' =
     [CHR 0x84, CHR 0x98, CHR 0x3E, CHR 0x44, CHR 0x1C, CHR 0x3B, CHR 0xD2, CHR 0x6E,
      CHR 0xBA, CHR 0xAE, CHR 0x4A, CHR 0xA1, CHR 0xF9, CHR 0x51, CHR 0x29, CHR 0xE5,
      CHR 0xE5, CHR 0x46, CHR 0x70, CHR 0xF1]"
  by (simp add: sha1_eval)





lemma Number_toString_examples:
  "Number_toString (Finite False 25 2) = ''25''"
  "Number_toString (Finite False 105 2) = ''10.5''"
  "Number_toString (Finite True 5 (- 3)) = ''-0.0005''"
  "Number_toString (Finite False 1 22) = ''1e+21''"
  "Number_toString (Finite False 15 (- 7)) = ''1.5e-8''"
  "Number_toString (Zero True) = ''0''"
  by (simp_all add: magnitude_to_string_def digits.simps digit_char_def Let_def replicate_eval)

lemma JSON_stringify_examples:
  \<open>JSON_stringify \<lparr>own = [(''a'', JStr [CHR ''x'', CHR 0x22, CHR 0x0A, CHR 0x5C, CHR 0x01]),
       (''b'', JUndefined), (''c'', JNum (Infinity True)), (''d'', JBool False), (''e'', JNull)],
       proto = None\<rparr>
     = [CHR ''{'', CHR 0x22, CHR ''a'', CHR 0x22, CHR '':'', CHR 0x22, CHR ''x'', CHR 0x5C, CHR 0x22,
        CHR 0x5C, CHR ''n'', CHR 0x5C, CHR 0x5C, CHR 0x5C, CHR ''u'', CHR ''0'', CHR ''0'', CHR ''0'',
        CHR ''1'', CHR 0x22] @ '',"c":null,"d":false,"e":null}''\<close>
  \<open>JSON_stringify \<lparr>own = [(''a'', JArr [JNull, JUndefined, JObj [], JArr []]),
       (''b'', JObj [(''__proto__'', JNum (Zero True)), (''c'', JUndefined), (''d'', JStr ''e'')])],
       proto = Some (JObj [(''f'', JBool True)])\<rparr>
     = ''{"a":[null,null,{},[]],"b":{"__proto__":0,"d":"e"}}''\<close>
  \<open>JSON_stringify empty_object = ''{}''\<close>
  by (simp_all add: JSON_stringify_def json_member_def QuoteJSONString_def json_escape_def
        hex_char_def empty_object_def Let_def)

text \<open>
  \<^verbatim>\<open>Object.assign\<close> on a payload with the key \<^verbatim>\<open>__proto__\<close>: a primitive value is dropped, an
  object becomes the prototype of the copy, through which the copy reads what it does not
  have itself.
\<close>

lemma Object_assign_examples:
  "copy [(''__proto__'', JStr ''x''), (''a'', JNull)] = \<lparr>own = [(''a'', JNull)], proto = None\<rparr>"
  "copy [(''a'', JNull), (''__proto__'', JObj [(''b'', JBool True)])]
     = \<lparr>own = [(''a'', JNull)], proto = Some (JObj [(''b'', JBool True)])\<rparr>"
  "Get (copy [(''a'', JNull), (''__proto__'', JObj [(''a'', JBool False), (''b'', JBool True)])]) ''a''
     = JNull"
  "Get (copy [(''a'', JNull), (''__proto__'', JObj [(''a'', JBool False), (''b'', JBool True)])]) ''b''
     = JBool True"
  "copy [(''__proto__'', JNull), (''a'', JNull)] = \<lparr>own = [(''a'', JNull)], proto = Some JNull\<rparr>"
  by (simp_all add: Object_assign_def Set_def Get_def obj_get_def empty_object_def)

section \<open>The object's state\<close>

lemma getObjData_state: "snd (getObjData ua payload this) = this"
  by (simp add: getObjData_def Let_def split: sum.split)

lemma getHtmlForm_state: "snd (getHtmlForm ua payload this) = this"
proof (cases "getObjData ua payload this")
  case (Pair res this')
  then show ?thesis
    using getObjData_state [of ua payload this]
    by (cases res) (simp_all add: getHtmlForm_def)
qed

lemma setApiVersion_state:
  "snd (setApiVersion v this) = (if v = [] then this else this\<lparr>apiVersion := v\<rparr>)"
  by (simp add: setApiVersion_def)



lemma new_LiqPay_apiVersion: "apiVersion (new_LiqPay k p s) = ''3''"
  by (simp add: new_LiqPay_def)

lemma run_no_setter:
  "\<forall>c \<in> set calls. \<forall>w. c \<noteq> SetApiVersion w \<Longrightarrow> run ua calls this = this"
  unfolding run_def
proof (induction calls)
  case Nil
  show ?case by simp
next
  case (Cons c calls)
  then have "perform ua c this = this"
    by (cases c) (simp_all add: getObjData_state getHtmlForm_state)
  with Cons show ?case by simp
qed

lemma perform_frame:
  "privateKey (perform ua c this) = privateKey this \<and>
   publicKey (perform ua c this) = publicKey this \<and>
   enableSandbox (perform ua c this) = enableSandbox this \<and>
   baseUrl (perform ua c this) = baseUrl this \<and>
   imageSrc (perform ua c this) = imageSrc this"
  by (cases c) (simp_all add: getObjData_state getHtmlForm_state setApiVersion_state)

lemma run_frame:
  "privateKey (run ua calls this) = privateKey this \<and>
   publicKey (run ua calls this) = publicKey this \<and>
   enableSandbox (run ua calls this) = enableSandbox this \<and>
   baseUrl (run ua calls this) = baseUrl this \<and>
   imageSrc (run ua calls this) = imageSrc this"
  unfolding run_def
  by (induction calls arbitrary: this) (simp_all add: perform_frame)

section \<open>Validation\<close>

lemma verifyPaymentData_preparePayment:
  "verifyPaymentData this (preparePayment ua this payload) =
     (if apiVersion this = [] then Inl (TypeError ''Version must be specified!'')
      else if falsy (Get (copy payload) ''amount'') then Inl (TypeError ''Amount must be specified!'')
      else if falsy (Get (copy payload) ''currency'') then Inl (TypeError ''Currency must be specified!'')
      else if falsy (Get (copy payload) ''description'') then Inl (TypeError ''Description must be specified!'')
      else Inr ())"
  by (simp add: verifyPaymentData_def Get_preparePayment)

lemma getObjData_result:
  "fst (getObjData ua payload this) =
     (case verifyPaymentData this (preparePayment ua this payload) of
        Inl err \<Rightarrow> Inl err
      | Inr _ \<Rightarrow>
          Inr \<lparr>data = base64 (JSON_stringify (preparePayment ua this payload)),
               signature = base64 (sha1 (privateKey this
                 @ base64 (JSON_stringify (preparePayment ua this payload)) @ privateKey this))\<rparr>)"
  by (simp add: getObjData_def generateData_def generateSignature_def Let_def split: sum.split)





text \<open>
  C10. Validation treats a falsy value as a missing one. The value of a field is the one
  that the copy of the payload reads; for a field that the payload has itself, and for
  every field of a payload that has no object under \<^verbatim>\<open>__proto__\<close>, this is the value in
  the payload. On an object whose version is not empty: a payload whose amount is falsy, in
  particular present and equal to 0, makes \<open>getObjData\<close> throw the error citing amount; a
  payload with truthy amount and falsy currency makes it throw the error citing currency;
  a payload with truthy amount and currency whose description is falsy, in particular
  present and the empty string, makes it throw the error citing description.
\<close>

theorem getObjData_falsy_is_missing:
  assumes "apiVersion this \<noteq> []"
  shows "(falsy (Get (copy payload) ''amount'') \<longrightarrow>
            fst (getObjData ua payload this) = Inl (TypeError ''Amount must be specified!''))
       \<and> (map_of payload ''amount'' = Some (JNum (Zero neg)) \<longrightarrow>
            fst (getObjData ua payload this) = Inl (TypeError ''Amount must be specified!''))
       \<and> (\<not> falsy (Get (copy payload) ''amount'') \<and> falsy (Get (copy payload) ''currency'') \<longrightarrow>
            fst (getObjData ua payload this) = Inl (TypeError ''Currency must be specified!''))
       \<and> (\<not> falsy (Get (copy payload) ''amount'') \<and> \<not> falsy (Get (copy payload) ''currency'')
            \<and> falsy (Get (copy payload) ''description'') \<longrightarrow>
            fst (getObjData ua payload this) = Inl (TypeError ''Description must be specified!''))
       \<and> (\<not> falsy (Get (copy payload) ''amount'') \<and> \<not> falsy (Get (copy payload) ''currency'')
            \<and> map_of payload ''description'' = Some (JStr []) \<longrightarrow>
            fst (getObjData ua payload this) = Inl (TypeError ''Description must be specified!''))
       \<and> (f \<in> {''amount'', ''currency'', ''description''} \<and> f \<in> fst ` set payload \<longrightarrow>
            Get (copy payload) f = obj_get payload f)
       \<and> (f \<in> {''amount'', ''currency'', ''description''}
            \<and> \<not> is_object (obj_get payload ''__proto__'') \<longrightarrow>
            Get (copy payload) f = obj_get payload f)"
proof -
  have f: "f \<noteq> ''__proto__''" if "f \<in> {''amount'', ''currency'', ''description''}"
    using that by auto
  have own: "f \<in> {''amount'', ''currency'', ''description''} \<and> f \<in> fst ` set payload \<longrightarrow>
            Get (copy payload) f = obj_get payload f"
    using f by (simp add: Get_copy_own)
  have plain: "f \<in> {''amount'', ''currency'', ''description''}
            \<and> \<not> is_object (obj_get payload ''__proto__'') \<longrightarrow>
            Get (copy payload) f = obj_get payload f"
    using f by (simp add: Get_copy_plain)
  have zero: "Get (copy payload) ''amount'' = JNum (Zero neg)"
    if "map_of payload ''amount'' = Some (JNum (Zero neg))"
    using that by (simp add: Get_copy)
  have empty: "Get (copy payload) ''description'' = JStr []"
    if "map_of payload ''description'' = Some (JStr [])"
    using that by (simp add: Get_copy)
  show ?thesis
    using assms own plain zero empty
    by (auto simp: getObjData_result verifyPaymentData_preparePayment)
qed

theorem getObjData_falsy_is_missing_witness:
  "fst (getObjData (JStr ''uk'')
          [(''action'', JStr ''pay''), (''amount'', JNum (Zero False)), (''currency'', JStr ''UAH''),
           (''description'', JStr ''book''), (''order_id'', JStr ''o1'')]
          (new_LiqPay ''priv'' ''pub'' None))
     = Inl (TypeError ''Amount must be specified!'')
   \<and> fst (getObjData (JStr ''uk'')
          [(''action'', JStr ''pay''), (''amount'', JNum (Finite False 1 2)), (''currency'', JStr ''UAH''),
           (''description'', JStr []), (''order_id'', JStr ''o1'')]
          (new_LiqPay ''priv'' ''pub'' None))
     = Inl (TypeError ''Description must be specified!'')"
proof -
  let ?p1 = "[(''action'', JStr ''pay''), (''amount'', JNum (Zero False)), (''currency'', JStr ''UAH''),
          (''description'', JStr ''book''), (''order_id'', JStr ''o1'')]"
  let ?p2 = "[(''action'', JStr ''pay''), (''amount'', JNum (Finite False 1 2)), (''currency'', JStr ''UAH''),
          (''description'', JStr []), (''order_id'', JStr ''o1'')]"
  have v: "apiVersion (new_LiqPay ''priv'' ''pub'' None) \<noteq> []"
    by (simp add: new_LiqPay_apiVersion)
  note a = getObjData_falsy_is_missing [OF v, of ?p1 "JStr ''uk''" False "''amount''"]
  note m = getObjData_falsy_is_missing [OF v, of ?p2 "JStr ''uk''" False "''amount''"]
  note c = getObjData_falsy_is_missing [OF v, of ?p2 "JStr ''uk''" False "''currency''"]
  from a m c show ?thesis
    by (simp add: obj_get_def)
qed

section \<open>Determinism\<close>

lemma preparePayment_cong:
  "publicKey this1 = publicKey this2 \<Longrightarrow> enableSandbox this1 = enableSandbox this2
   \<Longrightarrow> apiVersion this1 = apiVersion this2
   \<Longrightarrow> preparePayment ua this1 payload = preparePayment ua this2 payload"
  by (simp add: preparePayment_def)

text \<open>
  C3. \<open>getObjData\<close> is deterministic: on two objects with the same private key, public
  key, sandbox flag and version, identical payloads give the identical outcome, hence the
  identical data and signature; so does a second call on the same object. Nothing but the
  payload and these four fields enters the result.
\<close>

theorem getObjData_deterministic:
  assumes "privateKey this1 = privateKey this2" and "publicKey this1 = publicKey this2"
    and "enableSandbox this1 = enableSandbox this2" and "apiVersion this1 = apiVersion this2"
  shows "fst (getObjData ua payload this1) = fst (getObjData ua payload this2)
       \<and> fst (getObjData ua payload (snd (getObjData ua payload this1)))
           = fst (getObjData ua payload this1)"
  using assms preparePayment_cong [of this1 this2 ua payload]
  by (simp add: getObjData_result getObjData_state verifyPaymentData_def)

theorem getObjData_deterministic_witness:
  "fst (getObjData (JStr ''uk'')
          [(''action'', JStr ''pay''), (''amount'', JNum (Finite False 1 2)), (''currency'', JStr ''UAH''),
           (''description'', JStr ''book''), (''order_id'', JStr ''o1'')]
          (new_LiqPay ''priv'' ''pub'' None))
   = fst (getObjData (JStr ''uk'')
          [(''action'', JStr ''pay''), (''amount'', JNum (Finite False 1 2)), (''currency'', JStr ''UAH''),
           (''description'', JStr ''book''), (''order_id'', JStr ''o1'')]
          ((new_LiqPay ''priv'' ''pub'' (Some False))\<lparr>imageSrc := ''//example.org/b.png''\<rparr>))"
  using getObjData_deterministic
    [of "new_LiqPay ''priv'' ''pub'' None"
        "(new_LiqPay ''priv'' ''pub'' (Some False))\<lparr>imageSrc := ''//example.org/b.png''\<rparr>"
        "JStr ''uk''"
        "[(''action'', JStr ''pay''), (''amount'', JNum (Finite False 1 2)), (''currency'', JStr ''UAH''),
          (''description'', JStr ''book''), (''order_id'', JStr ''o1'')]"]
  by (simp add: new_LiqPay_def)

section \<open>Normalisation\<close>




section \<open>What the methods change\<close>

text \<open>
  C8, as stated: the private key, the public key, the sandbox flag and the version are set
  at construction and no operation of the class changes any of them. One does:
  \<open>setApiVersion\<close> with a non-empty argument replaces the version.
\<close>

theorem version_immutable_counterexample:
  "apiVersion (snd (setApiVersion ''2'' (new_LiqPay ''priv'' ''pub'' None)))
     \<noteq> apiVersion (new_LiqPay ''priv'' ''pub'' None)"
  by (simp add: setApiVersion_def new_LiqPay_def)

text \<open>
  C8, amended. The private key, the public key and the sandbox flag are set by the
  constructor and no method changes them, over any sequence of calls. \<open>getObjData\<close> and
  \<open>getHtmlForm\<close> change nothing at all. The version is changed by \<open>setApiVersion\<close> with a
  non-empty argument, and by nothing else.
\<close>

theorem configuration_frame:
  "snd (getObjData ua payload this) = this
   \<and> snd (getHtmlForm ua payload this) = this
   \<and> snd (setApiVersion v this) = this\<lparr>apiVersion := (if v = [] then apiVersion this else v)\<rparr>
   \<and> privateKey (run ua calls (new_LiqPay k p s)) = k
   \<and> publicKey (run ua calls (new_LiqPay k p s)) = p
   \<and> enableSandbox (run ua calls (new_LiqPay k p s)) = (s = Some True)
   \<and> ((\<forall>c \<in> set calls. \<forall>w. c \<noteq> SetApiVersion w) \<longrightarrow> run ua calls this = this)"
proof -
  have fixed: "(\<forall>c \<in> set calls. \<forall>w. c \<noteq> SetApiVersion w) \<longrightarrow> run ua calls this = this"
    using run_no_setter [of calls ua this] by blast
  have sandbox: "enableSandbox (new_LiqPay k p s) = (s = Some True)"
    by (cases s) (simp_all add: new_LiqPay_def)
  show ?thesis
    using fixed sandbox run_frame [of ua calls "new_LiqPay k p s"]
    by (simp add: getObjData_state getHtmlForm_state setApiVersion_state new_LiqPay_def)
qed

theorem configuration_frame_witness:
  "run (JStr ''uk'') [GetObjData [(''action'', JStr ''pay'')], GetHtmlForm []]
      (new_LiqPay ''priv'' ''pub'' (Some True))
     = new_LiqPay ''priv'' ''pub'' (Some True)"
  using configuration_frame
    [of "JStr ''uk''" "[]" "new_LiqPay ''priv'' ''pub'' (Some True)" "''3''"
        "[GetObjData [(''action'', JStr ''pay'')], GetHtmlForm []]" "''priv''" "''pub''" "Some True"]
  by simp

section \<open>The decoded data\<close>

text \<open>
  The gateway decodes the data from Base64 and reads the JSON text. For a payment \<open>P\<close> the
  text is \<open>JSON_stringify P\<close>, whose members are \<open>json_entries (own P)\<close>: the member \<open>k\<close>
  is there exactly when the own property \<open>k\<close> of \<open>P\<close> is not \<^verbatim>\<open>undefined\<close>, no key
  occurs twice, and the value text is the serialisation of that value.
\<close>

lemma getObjData_Inr:
  assumes "fst (getObjData ua payload this) = Inr r"
  shows "data r = base64 (JSON_stringify (preparePayment ua this payload))"
    and "signature r = base64 (sha1 (privateKey this @ data r @ privateKey this))"
    and "verifyPaymentData this (preparePayment ua this payload) = Inr ()"
  using assms
  by (auto simp: getObjData_result split: sum.splits)





section \<open>Data, signature and the order of the fields\<close>






section \<open>The version\<close>



section \<open>The form\<close>

lemma occurrences_skip_first:
  assumes "pat \<noteq> []" and "hd pat \<notin> set v"
  shows "occurrences pat (v @ rest) = occurrences pat rest"
  using assms(2)
proof (induction v)
  case Nil
  show ?case by simp
next
  case (Cons c v)
  from assms(1) obtain p ps where pat: "pat = p # ps" by (cases pat) auto
  with Cons.prems have "c \<noteq> p" by auto
  with pat have "take (length pat) (c # v @ rest) \<noteq> pat" by auto
  with Cons show ?case by simp
qed

lemma take_straddle:
  assumes "take (length pat) (xs @ r # rs) = pat"
  shows "set pat \<subseteq> set xs \<or> r \<in> set pat"
proof (cases "length pat \<le> length xs")
  case True
  with assms have "pat = take (length pat) xs" by simp
  then have "set pat \<subseteq> set xs" by (metis set_take_subset)
  then show ?thesis ..
next
  case False
  then have "take (length pat) (xs @ r # rs) = xs @ r # take (length pat - length xs - 1) rs"
    by (simp add: take_Cons')
  with assms have "pat = xs @ r # take (length pat - length xs - 1) rs" by simp
  then have "r \<in> set pat" by (metis in_set_conv_decomp)
  then show ?thesis ..
qed

text \<open>A text \<open>v\<close> that lacks a character of the pattern, followed by a character that
  the pattern lacks, holds no occurrence of the pattern.\<close>

lemma occurrences_skip:
  assumes "q \<in> set pat" and "q \<notin> set v" and "r \<notin> set pat"
  shows "occurrences pat (v @ r # rs) = occurrences pat (r # rs)"
  using assms(2)
proof (induction v)
  case Nil
  show ?case by simp
next
  case (Cons c v)
  have "take (length pat) ((c # v) @ r # rs) \<noteq> pat"
    using take_straddle [of pat "c # v" r rs] assms(1,3) Cons.prems by blast
  with Cons show ?case by simp
qed

lemma base64_no_less: "CHR ''<'' \<notin> set (base64 xs)"
proof -
  have "CHR ''<'' \<notin> set b64_alphabet \<union> {CHR ''=''}" by (simp add: b64_alphabet_def)
  then show ?thesis using base64_chars [of xs] by blast
qed

lemma one_action_attribute:
  assumes "CHR 0x22 \<notin> set v" and "CHR '' '' \<notin> set d" and "CHR '' '' \<notin> set g"
  shows "occurrences action_attribute
           (form_html ''https://www.liqpay.ua/api'' v d g
              ''//static.liqpay.ua/buttons/p1ru.radius.png'') = 1"
  using assms
  by (simp add: form_html_def action_attribute_def occurrences_skip_first
        occurrences_skip [where q = "CHR 0x22"])

lemma two_action_attributes:
  assumes "CHR '' '' \<notin> set d" and "CHR '' '' \<notin> set g"
  shows \<open>occurrences action_attribute
           (form_html ''https://www.liqpay.ua/api'' ''3" action="x'' d g
              ''//static.liqpay.ua/buttons/p1ru.radius.png'') = 2\<close>
  using assms
  by (simp add: form_html_def action_attribute_def occurrences_skip_first)

lemma two_hidden_inputs:
  assumes "CHR 0x22 \<notin> set v" and "CHR ''<'' \<notin> set d" and "CHR ''<'' \<notin> set g"
  shows "occurrences hidden_input
           (form_html ''https://www.liqpay.ua/api'' v d g
              ''//static.liqpay.ua/buttons/p1ru.radius.png'') = 2"
  using assms
  by (simp add: form_html_def hidden_input_def occurrences_skip_first
        occurrences_skip [where q = "CHR 0x22"])

lemma one_hidden_field:
  assumes "CHR 0x22 \<notin> set v" and "CHR ''<'' \<notin> set d" and "CHR ''<'' \<notin> set g"
  shows "occurrences (hidden_field ''data'')
           (form_html ''https://www.liqpay.ua/api'' v d g
              ''//static.liqpay.ua/buttons/p1ru.radius.png'') = 1"
    and "occurrences (hidden_field ''signature'')
           (form_html ''https://www.liqpay.ua/api'' v d g
              ''//static.liqpay.ua/buttons/p1ru.radius.png'') = 1"
  using assms
  by (simp_all add: form_html_def hidden_field_def hidden_input_def occurrences_skip_first
        occurrences_skip [where q = "CHR 0x22"])

lemma getHtmlForm_result:
  "fst (getObjData ua payload this) = Inr r \<Longrightarrow>
   fst (getHtmlForm ua payload this)
     = Inr (form_html (baseUrl this) (apiVersion this) (data r) (signature r) (imageSrc this))"
  using getObjData_state [of ua payload this]
  by (cases "getObjData ua payload this") (simp add: getHtmlForm_def)

text \<open>
  C6, as stated: for every valid payload the form has exactly one action attribute. The
  version is written into the form as it is, so after \<open>setApiVersion\<close> with a text that
  holds a double quote the form for a valid payload has two.
\<close>

theorem one_action_attribute_counterexample:
  \<open>\<not> isl (fst (getHtmlForm (JStr ''uk'')
        [(''action'', JStr ''pay''), (''amount'', JNum (Finite False 25 2)),
         (''currency'', JStr ''UAH''), (''description'', JStr ''d''), (''order_id'', JStr ''7'')]
        (snd (setApiVersion ''3" action="x'' (new_LiqPay ''priv'' ''pub'' None)))))
   \<and> occurrences action_attribute (projr (fst (getHtmlForm (JStr ''uk'')
        [(''action'', JStr ''pay''), (''amount'', JNum (Finite False 25 2)),
         (''currency'', JStr ''UAH''), (''description'', JStr ''d''), (''order_id'', JStr ''7'')]
        (snd (setApiVersion ''3" action="x'' (new_LiqPay ''priv'' ''pub'' None)))))) = 2\<close>
proof -
  let ?obj = \<open>snd (setApiVersion ''3" action="x'' (new_LiqPay ''priv'' ''pub'' None))\<close>
  let ?pl = "[(''action'', JStr ''pay''), (''amount'', JNum (Finite False 25 2)),
         (''currency'', JStr ''UAH''), (''description'', JStr ''d''), (''order_id'', JStr ''7'')]"
  have obj: \<open>apiVersion ?obj = ''3" action="x''\<close> "baseUrl ?obj = ''https://www.liqpay.ua/api''"
    "imageSrc ?obj = ''//static.liqpay.ua/buttons/p1ru.radius.png''"
    by (simp_all add: setApiVersion_def new_LiqPay_def)
  then have "apiVersion ?obj \<noteq> []" by simp
  then obtain r where r: "fst (getObjData (JStr ''uk'') ?pl ?obj) = Inr r"
    by (simp add: getObjData_result verifyPaymentData_preparePayment Get_copy obj_get_def)
  have "CHR '' '' \<notin> set (data r)" "CHR '' '' \<notin> set (signature r)"
    by (simp_all only: getObjData_Inr(1,2) [OF r] base64_no_space not_False_eq_True)
  then have "occurrences action_attribute
           (form_html (baseUrl ?obj) (apiVersion ?obj) (data r) (signature r) (imageSrc ?obj)) = 2"
    unfolding obj by (rule two_action_attributes)
  then show ?thesis
    by (simp only: getHtmlForm_result [OF r] sum.sel sum.disc not_False_eq_True simp_thms)
qed

text \<open>
  C6, amended. On an object obtained from the constructor by any calls and whose version
  holds no double quote, for every valid payload \<open>getHtmlForm\<close> returns a text with
  exactly one action attribute, whose value, which ends at the next double quote, is the
  base URL, a slash, the version and \<^verbatim>\<open>/checkout\<close>. The text has exactly two hidden
  fields, one named data and one named signature; their values, which end at the next
  double quote, are the data and the signature that \<open>getObjData\<close> returns for the same
  payload.
\<close>

theorem getHtmlForm_one_action_attribute:
  assumes "this = run ua calls (new_LiqPay k p s)"
    and "CHR 0x22 \<notin> set (apiVersion this)"
    and "fst (getObjData ua payload this) = Inr r"
  shows \<open>\<exists>html. fst (getHtmlForm ua payload this) = Inr html
     \<and> occurrences action_attribute html = 1
     \<and> (\<exists>before after.
          html = before @ action_attribute
              @ (''https://www.liqpay.ua/api'' @ ''/'' @ apiVersion this @ ''/checkout'')
              @ [CHR 0x22] @ after)
     \<and> CHR 0x22 \<notin> set (''https://www.liqpay.ua/api'' @ ''/'' @ apiVersion this @ ''/checkout'')
     \<and> occurrences hidden_input html = 2
     \<and> occurrences (hidden_field ''data'') html = 1
     \<and> (\<exists>before after. html = before @ hidden_field ''data'' @ data r @ [CHR 0x22] @ after)
     \<and> CHR 0x22 \<notin> set (data r)
     \<and> occurrences (hidden_field ''signature'') html = 1
     \<and> (\<exists>before after.
          html = before @ hidden_field ''signature'' @ signature r @ [CHR 0x22] @ after)
     \<and> CHR 0x22 \<notin> set (signature r)\<close>
proof -
  define html where "html = form_html ''https://www.liqpay.ua/api'' (apiVersion this) (data r)
    (signature r) ''//static.liqpay.ua/buttons/p1ru.radius.png''"
  have urls: "baseUrl this = ''https://www.liqpay.ua/api''"
    "imageSrc this = ''//static.liqpay.ua/buttons/p1ru.radius.png''"
    using run_frame [of ua calls "new_LiqPay k p s"]
    by (simp_all add: assms(1) new_LiqPay_def)
  have form: "fst (getHtmlForm ua payload this) = Inr html"
    by (simp only: getHtmlForm_result [OF assms(3)] urls html_def)
  have space: "CHR '' '' \<notin> set (data r)" "CHR '' '' \<notin> set (signature r)"
    by (simp_all only: getObjData_Inr(1,2) [OF assms(3)] base64_no_space not_False_eq_True)
  have less: "CHR ''<'' \<notin> set (data r)" "CHR ''<'' \<notin> set (signature r)"
    by (simp_all only: getObjData_Inr(1,2) [OF assms(3)] base64_no_less not_False_eq_True)
  have quote: "CHR 0x22 \<notin> set (data r)" "CHR 0x22 \<notin> set (signature r)"
    by (simp_all only: getObjData_Inr(1,2) [OF assms(3)] base64_no_quote not_False_eq_True)
  have action: "occurrences action_attribute html = 1"
    unfolding html_def using assms(2) space by (rule one_action_attribute)
  have hidden: "occurrences hidden_input html = 2"
    unfolding html_def using assms(2) less by (rule two_hidden_inputs)
  have fields: "occurrences (hidden_field ''data'') html = 1"
    "occurrences (hidden_field ''signature'') html = 1"
    unfolding html_def using assms(2) less by (rule one_hidden_field)+
  have url: \<open>\<exists>before after.
          html = before @ action_attribute
              @ (''https://www.liqpay.ua/api'' @ ''/'' @ apiVersion this @ ''/checkout'')
              @ [CHR 0x22] @ after\<close>
    unfolding html_def form_html_def action_attribute_def
    by (intro exI [of _ \<open>[CHR 0x0A] @ ''            <form method="POST"''\<close>] exI) simp
  have d: \<open>\<exists>before after. html = before @ hidden_field ''data'' @ data r @ [CHR 0x22] @ after\<close>
    unfolding html_def form_html_def hidden_field_def hidden_input_def
    by (intro exI [of _ \<open>[CHR 0x0A] @ ''            <form method="POST" action="''
          @ ''https://www.liqpay.ua/api'' @ ''/'' @ apiVersion this
          @ ''/checkout" accept-charset="utf-8">'' @ [CHR 0x0A] @ ''                ''\<close>] exI)
       simp
  have g: \<open>\<exists>before after.
          html = before @ hidden_field ''signature'' @ signature r @ [CHR 0x22] @ after\<close>
    unfolding html_def form_html_def hidden_field_def hidden_input_def
    by (intro exI [of _ \<open>[CHR 0x0A] @ ''            <form method="POST" action="''
          @ ''https://www.liqpay.ua/api'' @ ''/'' @ apiVersion this
          @ ''/checkout" accept-charset="utf-8">'' @ [CHR 0x0A]
          @ ''                <input type="hidden" name="data" value="'' @ data r @ ''" />''
          @ [CHR 0x0A] @ ''                ''\<close>] exI)
       simp
  have "CHR 0x22 \<notin> set (''https://www.liqpay.ua/api'' @ ''/'' @ apiVersion this @ ''/checkout'')"
    using assms(2) by simp
  with form action hidden fields url d g quote show ?thesis by blast
qed

theorem getHtmlForm_one_action_attribute_witness:
  "occurrences action_attribute (projr (fst (getHtmlForm (JStr ''uk'')
        [(''action'', JStr ''pay''), (''amount'', JNum (Finite False 25 2)),
         (''currency'', JStr ''UAH''), (''description'', JStr ''d''), (''order_id'', JStr ''7'')]
        (run (JStr ''uk'') [SetApiVersion ''4''] (new_LiqPay ''priv'' ''pub'' None))))) = 1
   \<and> occurrences hidden_input (projr (fst (getHtmlForm (JStr ''uk'')
        [(''action'', JStr ''pay''), (''amount'', JNum (Finite False 25 2)),
         (''currency'', JStr ''UAH''), (''description'', JStr ''d''), (''order_id'', JStr ''7'')]
        (run (JStr ''uk'') [SetApiVersion ''4''] (new_LiqPay ''priv'' ''pub'' None))))) = 2"
proof -
  let ?obj = "run (JStr ''uk'') [SetApiVersion ''4''] (new_LiqPay ''priv'' ''pub'' None)"
  let ?pl = "[(''action'', JStr ''pay''), (''amount'', JNum (Finite False 25 2)),
         (''currency'', JStr ''UAH''), (''description'', JStr ''d''), (''order_id'', JStr ''7'')]"
  have version: "apiVersion ?obj = ''4''"
    by (simp add: run_def setApiVersion_def)
  then have "apiVersion ?obj \<noteq> []" by simp
  then obtain r where r: "fst (getObjData (JStr ''uk'') ?pl ?obj) = Inr r"
    by (simp add: getObjData_result verifyPaymentData_preparePayment Get_copy obj_get_def)
  have quote: "CHR 0x22 \<notin> set (apiVersion ?obj)"
    by (simp add: version)
  from getHtmlForm_one_action_attribute [OF refl quote r]
  obtain html where "fst (getHtmlForm (JStr ''uk'') ?pl ?obj) = Inr html"
    and "occurrences action_attribute html = 1" and "occurrences hidden_input html = 2"
    by blast
  then show ?thesis by (simp only: sum.sel simp_thms)
qed

section \<open>Changing a field\<close>






end
